theory Spec2Isabelle
  imports Complex_Main "HOL-Library.Sublist" "HOL-Library.List_Lexorder" "HOL-Library.Char_ord"
begin

section \<open>Data model of \<^verbatim>\<open>sales-optimization.py\<close>\<close>

text \<open>
  The script keeps one pandas data frame in \<^verbatim>\<open>self.data\<close>. A data frame is modelled as
  the list of its rows, in row order. A raw row has the CSV columns the script reads
  (\<^verbatim>\<open>week\<close>, \<^verbatim>\<open>store\<close>, \<^verbatim>\<open>price\<close>, \<^verbatim>\<open>base_price\<close>, \<^verbatim>\<open>units\<close>, \<^verbatim>\<open>featured\<close>) and the
  \<^verbatim>\<open>date\<close> column that \<^verbatim>\<open>load_real_data\<close> adds before it calls \<^verbatim>\<open>clean_data\<close>.
  Prices are exact rationals: rounding of binary floating point and missing values in the
  input are outside this model. The column \<^verbatim>\<open>units\<close> is an \<^verbatim>\<open>int64\<close> column: its entries are
  integers of the signed 64-bit range, and pandas and numpy add and subtract them in 64
  bits, wrapping around silently. A timestamp is the integer pandas stores for it.
\<close>

record row =
  week :: int
  store :: int
  price :: rat
  base_price :: rat
  units :: int
  featured :: int
  date :: int

text \<open>Lines 36 and 37 add the columns \<^verbatim>\<open>revenue\<close> and \<^verbatim>\<open>profit\<close>.\<close>

record mrow = row +
  revenue :: rat
  profit :: rat

text \<open>The labels handed to \<^verbatim>\<open>pd.qcut\<close>: \<^verbatim>\<open>labels=['Low', 'Medium', 'High']\<close>.\<close>

datatype tier = Low | Medium | High

fun tier_name :: "tier \<Rightarrow> string" where
  "tier_name Low = ''Low''"
| "tier_name Medium = ''Medium''"
| "tier_name High = ''High''"

text \<open>
  Line 41 adds the column \<^verbatim>\<open>customer_segment\<close>. \<^verbatim>\<open>Series.map\<close> with a dictionary leaves
  a missing value where the key is absent, so the segment is optional.
\<close>

record crow = mrow +
  customer_segment :: "tier option"

text \<open>
  The exceptions the script can meet; none of them is caught anywhere. \<open>FetchError\<close>
  and \<open>ParseError\<close> stand for whatever \<^verbatim>\<open>requests.get\<close>, \<^verbatim>\<open>pd.read_csv\<close> and
  \<^verbatim>\<open>pd.to_datetime\<close> raise. The three \<^verbatim>\<open>ValueError\<close>s are pandas' "Bin edges must be
  unique", "Bin labels must be one fewer than the number of bin edges" and "attempt to
  get argmax of an empty sequence"; \<open>KeyError k\<close> is the failed \<^verbatim>\<open>.loc[k, ...]\<close>.
\<close>

datatype error =
    FetchError
  | ParseError
  | ValueError_bin_edges
  | ValueError_bin_labels
  | ValueError_empty
  | KeyError int

section \<open>Signed 64-bit integers\<close>

text \<open>
  The range of \<^verbatim>\<open>int64\<close>, the value an out-of-range result wraps to, and the sum of an
  \<^verbatim>\<open>int64\<close> column: one wrapping addition per entry.
\<close>

definition in_int64 :: "int \<Rightarrow> bool" where
  "in_int64 x \<longleftrightarrow> - 9223372036854775808 \<le> x \<and> x < 9223372036854775808"

definition wrap64 :: "int \<Rightarrow> int" where
  "wrap64 x = (x + 9223372036854775808) mod 18446744073709551616 - 9223372036854775808"

definition sum64 :: "int list \<Rightarrow> int" where
  "sum64 xs = foldl (\<lambda>acc x. wrap64 (acc + x)) 0 xs"

section \<open>pandas operations the script calls\<close>

subsection \<open>\<^verbatim>\<open>drop_duplicates\<close>\<close>

text \<open>
  With its defaults (\<^verbatim>\<open>subset=None\<close>, \<^verbatim>\<open>keep='first'\<close>) pandas walks the rows in order,
  remembers the rows it has seen, and drops a row when an equal row (equal in every
  column) was seen before.
\<close>

fun drop_dups_from :: "'a list \<Rightarrow> 'a list \<Rightarrow> 'a list" where
  "drop_dups_from seen [] = []"
| "drop_dups_from seen (x # xs) =
     (if x \<in> set seen then drop_dups_from seen xs
      else x # drop_dups_from (x # seen) xs)"

definition drop_duplicates :: "'a list \<Rightarrow> 'a list" where
  "drop_duplicates xs = drop_dups_from [] xs"

subsection \<open>\<^verbatim>\<open>groupby\<close>\<close>

text \<open>
  \<^verbatim>\<open>df.groupby(key)\<close> with its defaults (\<^verbatim>\<open>sort=True\<close>): one pass over the rows that
  appends each row to the group of its key, opening a new group for a new key; then the
  groups are put in ascending order of their keys.
\<close>

fun add_to_group :: "'k \<Rightarrow> 'r \<Rightarrow> ('k \<times> 'r list) list \<Rightarrow> ('k \<times> 'r list) list" where
  "add_to_group k r [] = [(k, [r])]"
| "add_to_group k r ((k', g) # gs) =
     (if k' = k then (k', g @ [r]) # gs else (k', g) # add_to_group k r gs)"

fun collect_groups ::
  "('r \<Rightarrow> 'k) \<Rightarrow> 'r list \<Rightarrow> ('k \<times> 'r list) list \<Rightarrow> ('k \<times> 'r list) list" where
  "collect_groups key [] gs = gs"
| "collect_groups key (r # rs) gs = collect_groups key rs (add_to_group (key r) r gs)"

definition groupby :: "('r \<Rightarrow> 'k::linorder) \<Rightarrow> 'r list \<Rightarrow> ('k \<times> 'r list) list" where
  "groupby key rows = sort_key fst (collect_groups key rows [])"

text \<open>Aggregations of one column over a group. A group is never empty.\<close>

definition mean :: "rat list \<Rightarrow> rat" where
  "mean xs = sum_list xs / of_nat (length xs)"

text \<open>
  \<^verbatim>\<open>.round(2)\<close>: numpy scales by 100, rounds to the nearest integer with ties to the even
  one, and scales back. An integer column is left as it is.
\<close>

definition round_half_even :: "rat \<Rightarrow> int" where
  "round_half_even x =
     (let f = \<lfloor>x\<rfloor>; d = x - of_int f
      in if d < 1 / 2 then f
         else if 1 / 2 < d then f + 1
         else if even f then f else f + 1)"

definition round2 :: "rat \<Rightarrow> rat" where
  "round2 x = of_int (round_half_even (x * 100)) / 100"

subsection \<open>\<^verbatim>\<open>qcut\<close>\<close>

text \<open>
  \<^verbatim>\<open>pd.qcut(x, q, labels)\<close> for an integer \<open>q\<close>. The bin edges are the quantiles of \<open>x\<close>
  at \<open>0/q, 1/q, ..., q/q\<close>, each found by linear interpolation between the two
  neighbouring order statistics: the quantile at \<open>i/q\<close> of \<open>n\<close> sorted values sits at the
  fractional position \<open>(n - 1) * i / q\<close>. The position is split into its integer part
  \<open>k\<close> and its fraction \<open>r / q\<close> by integer division.

  numpy interpolates between the \<^verbatim>\<open>int64\<close> neighbours \<open>a\<close> and \<open>b\<close> with their difference
  taken in 64 bits: \<^verbatim>\<open>diff_b_a = subtract(b, a)\<close>, then \<^verbatim>\<open>a + diff_b_a * t\<close>, replaced by
  \<^verbatim>\<open>b - diff_b_a * (1 - t)\<close> where \<^verbatim>\<open>t >= 0.5\<close>.
\<close>

definition lerp :: "int \<Rightarrow> int \<Rightarrow> rat \<Rightarrow> rat" where
  "lerp a b t =
     (let diff_b_a = wrap64 (b - a)
      in if t \<ge> 1 / 2 then of_int b - of_int diff_b_a * (1 - t)
         else of_int a + of_int diff_b_a * t)"

definition quantile :: "int list \<Rightarrow> nat \<Rightarrow> nat \<Rightarrow> rat" where
  "quantile s i q =
     (let pos = (length s - 1) * i;
          k = pos div q;
          r = pos mod q;
          lo = s ! k;
          hi = s ! min (k + 1) (length s - 1)
      in lerp lo hi (of_nat r / of_nat q))"

definition bin_edges :: "int list \<Rightarrow> nat \<Rightarrow> rat list" where
  "bin_edges xs q = map (\<lambda>i. quantile (sort xs) i q) [0..<Suc q]"

text \<open>
  \<^verbatim>\<open>bins.searchsorted(x, side='left')\<close>: a binary search for the first position whose
  edge is not below \<open>x\<close>. It halves the window \<open>[lo, hi)\<close> on the edge in the middle.
\<close>

function bisect_left :: "rat list \<Rightarrow> rat \<Rightarrow> nat \<Rightarrow> nat \<Rightarrow> nat" where
  "bisect_left arr key lo hi =
     (if lo < hi
      then (let mid = lo + (hi - lo) div 2
            in if arr ! mid < key then bisect_left arr key (mid + 1) hi
               else bisect_left arr key lo mid)
      else lo)"
  by pat_completeness auto
termination
  by (relation "measure (\<lambda>(arr, key, lo, hi). hi - lo)") auto

definition searchsorted_left :: "rat list \<Rightarrow> rat \<Rightarrow> nat" where
  "searchsorted_left bins x = bisect_left bins x 0 (length bins)"

text \<open>
  One value's bin: intervals are closed on the right, the lowest edge is included in the
  first bin (\<^verbatim>\<open>include_lowest=True\<close>), and a value outside all bins gets no label.
\<close>

definition bin_label :: "rat list \<Rightarrow> 'l list \<Rightarrow> int \<Rightarrow> 'l option" where
  "bin_label bins labels v =
     (let x = of_int v;
          ids = (if x = hd bins then 1 else searchsorted_left bins x)
      in if ids = 0 \<or> ids = length bins then None else Some (labels ! (ids - 1)))"

text \<open>
  \<open>qcut\<close> on a series given as its (index, value) pairs. Edges that are not pairwise
  different are refused (\<^verbatim>\<open>duplicates='raise'\<close>) unless there are only two of them; on an
  empty series every edge is the missing value, so they are refused as well.
\<close>

definition qcut :: "('i \<times> int) list \<Rightarrow> nat \<Rightarrow> 'l list \<Rightarrow> error + ('i \<times> 'l option) list" where
  "qcut x q labels =
     (if x = [] then Inl ValueError_bin_edges
      else let bins = bin_edges (map snd x) q
           in if \<not> distinct bins \<and> length bins \<noteq> 2 then Inl ValueError_bin_edges
              else if length labels \<noteq> length bins - 1 then Inl ValueError_bin_labels
              else Inr (map (\<lambda>(i, v). (i, bin_label bins labels v)) x))"

section \<open>The Cleaner: \<^verbatim>\<open>clean_data\<close>\<close>

text \<open>
  Lines 36 and 37:
  \<^verbatim>\<open>revenue = price * units\<close> and \<^verbatim>\<open>profit = revenue - (units * base_price)\<close>.
\<close>

definition add_metrics :: "row \<Rightarrow> mrow" where
  "add_metrics r =
     (let rev = price r * of_int (units r);
          prof = rev - of_int (units r) * base_price r
      in row.extend r (mrow.fields rev prof))"

text \<open>
  Line 40: \<^verbatim>\<open>self.data.groupby('store')['units'].sum()\<close>, a series indexed by store. The
  sum of an \<^verbatim>\<open>int64\<close> column is an \<^verbatim>\<open>int64\<close>.
\<close>

definition customer_frequency :: "mrow list \<Rightarrow> (int \<times> int) list" where
  "customer_frequency data =
     map (\<lambda>(s, g). (s, sum64 (map units g))) (groupby store data)"

text \<open>
  Lines 41 to 43: the store's label is looked up in the dictionary made from the result
  of \<open>qcut\<close>; a store the dictionary lacks gets the missing value.
\<close>

definition add_segment :: "(int \<times> tier option) list \<Rightarrow> mrow \<Rightarrow> crow" where
  "add_segment d r =
     mrow.extend r
       (crow.fields (case map_of d (store r) of None \<Rightarrow> None | Some t \<Rightarrow> t))"

definition clean_data :: "row list \<Rightarrow> error + crow list" where
  "clean_data raw =
     (let data = map add_metrics (drop_duplicates raw)
      in case qcut (customer_frequency data) 3 [Low, Medium, High] of
           Inl e \<Rightarrow> Inl e
         | Inr d \<Rightarrow> Inr (map (add_segment d) data))"

section \<open>The Aggregator: \<^verbatim>\<open>analyze_sales_trends\<close>\<close>

record weekly_row =
  w_date :: int
  w_revenue :: rat
  w_units :: int
  w_profit :: rat

record segment_row =
  s_segment :: string
  s_revenue :: rat
  s_units :: int
  s_profit :: rat

record promo_row =
  p_featured :: int
  p_units :: rat
  p_revenue :: rat
  p_profit :: rat

record summary =
  weekly_sales :: "weekly_row list"
  segment_analysis :: "segment_row list"
  promo_analysis :: "promo_row list"

text \<open>
  Lines 48 to 52: group by \<^verbatim>\<open>date\<close>, three sums, \<^verbatim>\<open>reset_index\<close>. Revenue and profit are
  floating-point columns; units is summed in 64 bits.
\<close>

definition weekly_sales_of :: "crow list \<Rightarrow> weekly_row list" where
  "weekly_sales_of data =
     map (\<lambda>(d, g). \<lparr>w_date = d,
                     w_revenue = sum_list (map revenue g),
                     w_units = sum64 (map units g),
                     w_profit = sum_list (map profit g)\<rparr>)
       (groupby date data)"

text \<open>
  Lines 55 to 59. The segment column holds the label strings, so the groups come in the
  order of the strings; rows whose segment is missing belong to no group.
\<close>

definition labelled :: "crow list \<Rightarrow> (string \<times> crow) list" where
  "labelled rows =
     concat (map (\<lambda>r. case customer_segment r of None \<Rightarrow> [] | Some t \<Rightarrow> [(tier_name t, r)])
               rows)"

definition segment_analysis_of :: "crow list \<Rightarrow> segment_row list" where
  "segment_analysis_of data =
     map (\<lambda>(k, g). \<lparr>s_segment = k,
                     s_revenue = round2 (sum_list (map (revenue \<circ> snd) g)),
                     s_units = sum64 (map (units \<circ> snd) g),
                     s_profit = round2 (mean (map (profit \<circ> snd) g))\<rparr>)
       (groupby fst (labelled data))"

text \<open>Lines 62 to 66: group by \<^verbatim>\<open>featured\<close>, three means, rounded.\<close>

definition promo_analysis_of :: "crow list \<Rightarrow> promo_row list" where
  "promo_analysis_of data =
     map (\<lambda>(k, g). \<lparr>p_featured = k,
                     p_units = round2 (mean (map (\<lambda>r. of_int (units r)) g)),
                     p_revenue = round2 (mean (map revenue g)),
                     p_profit = round2 (mean (map profit g))\<rparr>)
       (groupby featured data)"

text \<open>
  The object: \<^verbatim>\<open>self.data\<close> and \<^verbatim>\<open>self.summary\<close> (\<^verbatim>\<open>None\<close> until the first analysis).
  The second component of the state every method threads is the list of files written
  so far, oldest first.
\<close>

record optimizer =
  data :: "crow list"
  summary :: "summary option"

definition analyze_sales_trends :: "optimizer \<Rightarrow> summary \<times> optimizer" where
  "analyze_sales_trends self =
     (let s = \<lparr>weekly_sales = weekly_sales_of (data self),
               segment_analysis = segment_analysis_of (data self),
               promo_analysis = promo_analysis_of (data self)\<rparr>
      in (s, self\<lparr>summary := Some s\<rparr>))"

text \<open>\<^verbatim>\<open>if not self.summary: self.analyze_sales_trends()\<close>; a filled dictionary is true.\<close>

definition ensure_summary :: "optimizer \<Rightarrow> summary \<times> optimizer" where
  "ensure_summary self =
     (case summary self of None \<Rightarrow> analyze_sales_trends self | Some s \<Rightarrow> (s, self))"

section \<open>The Reporter\<close>

text \<open>
  \<^verbatim>\<open>generate_visualizations\<close>, lines 76 to 107: three \<^verbatim>\<open>plt.savefig\<close> calls, in this
  order. What the charts show is not modelled; drawing them is taken not to fail.
\<close>

definition generate_visualizations :: "optimizer \<Rightarrow> string list \<Rightarrow> optimizer \<times> string list" where
  "generate_visualizations self files =
     (let (s, self') = ensure_summary self
      in (self', files @ [''reports/sales_trend.png'',
                          ''reports/segment_analysis.png'',
                          ''reports/promo_effectiveness.png'']))"

text \<open>
  The renderings the report template delegates to Python and pandas are parameters:
  the date of the run, the number formats \<^verbatim>\<open>:,.2f\<close>, \<^verbatim>\<open>:,\<close> and \<^verbatim>\<open>:.2f\<close>, and
  \<^verbatim>\<open>DataFrame.to_string()\<close> for the two tables.
\<close>

record formats =
  today :: string
  money :: "rat \<Rightarrow> string"
  grouped :: "int \<Rightarrow> string"
  fixed2 :: "rat option \<Rightarrow> string"
  segment_table :: "segment_row list \<Rightarrow> string"
  promo_table :: "promo_row list \<Rightarrow> string"

text \<open>\<^verbatim>\<open>Series.mean()\<close> of the whole column: not a number on an empty frame.\<close>

definition mean_opt :: "rat list \<Rightarrow> rat option" where
  "mean_opt xs = (if xs = [] then None else Some (mean xs))"

text \<open>\<^verbatim>\<open>['revenue'].idxmax()\<close>: the label of the first row that holds the maximum.\<close>

fun idxmax_from :: "segment_row \<Rightarrow> segment_row list \<Rightarrow> string" where
  "idxmax_from best [] = s_segment best"
| "idxmax_from best (r # rs) =
     (if s_revenue best < s_revenue r then idxmax_from r rs else idxmax_from best rs)"

definition idxmax :: "segment_row list \<Rightarrow> error + string" where
  "idxmax rows = (case rows of [] \<Rightarrow> Inl ValueError_empty | r # rs \<Rightarrow> Inr (idxmax_from r rs))"

text \<open>\<^verbatim>\<open>promo_analysis.loc[k, 'profit']\<close>: the row labelled \<open>k\<close>, or \<^verbatim>\<open>KeyError\<close>.\<close>

definition loc_profit :: "promo_row list \<Rightarrow> int \<Rightarrow> error + rat" where
  "loc_profit rows k =
     (case find (\<lambda>r. p_featured r = k) rows of
        None \<Rightarrow> Inl (KeyError k)
      | Some r \<Rightarrow> Inr (p_profit r))"

text \<open>
  The two conditional expressions of the template, lines 132 to 133 and 138 to 139, on
  the promoted mean profit \<open>p1\<close> (\<^verbatim>\<open>.loc[1, 'profit']\<close>) and the non-promoted one \<open>p0\<close>.
\<close>

definition promo_judgement :: "rat \<Rightarrow> rat \<Rightarrow> string" where
  "promo_judgement p1 p0 = (if p1 > p0 then ''Positive'' else ''Negative'')"

definition promo_recommendation :: "rat \<Rightarrow> rat \<Rightarrow> string" where
  "promo_recommendation p1 p0 = (if p1 > p0 then ''Increase'' else ''Decrease'')"

definition newline :: string where
  "newline = [CHR 0x0A]"

definition quote :: string where
  "quote = [CHR 0x27]"

text \<open>
  The f-string of lines 114 to 142. Its replacement fields are evaluated from left to
  right, and the first one that raises ends the evaluation; the text exists only when
  all of them have a value.
\<close>

definition report_text :: "formats \<Rightarrow> crow list \<Rightarrow> summary \<Rightarrow> error + string" where
  "report_text f d s =
    (case idxmax (segment_analysis s) of Inl e \<Rightarrow> Inl e | Inr best \<Rightarrow>
     case loc_profit (promo_analysis s) 1 of Inl e \<Rightarrow> Inl e | Inr p1 \<Rightarrow>
     case loc_profit (promo_analysis s) 0 of Inl e \<Rightarrow> Inl e | Inr p0 \<Rightarrow>
     Inr (newline
       @ ''Sales Optimization Analysis Report'' @ newline
       @ ''Generated on: '' @ today f @ newline
       @ newline
       @ ''1. Overall Performance Metrics:'' @ newline
       @ ''   - Total Revenue: $'' @ money f (sum_list (map revenue d)) @ newline
       @ ''   - Total Units Sold: '' @ grouped f (sum64 (map units d)) @ newline
       @ ''   - Average Profit per Sale: $'' @ fixed2 f (mean_opt (map profit d)) @ newline
       @ newline
       @ ''2. Customer Segment Analysis:'' @ newline
       @ segment_table f (segment_analysis s) @ newline
       @ newline
       @ ''3. Promotion Effectiveness:'' @ newline
       @ promo_table f (promo_analysis s) @ newline
       @ newline
       @ ''4. Key Insights:'' @ newline
       @ ''   - Most valuable customer segment: '' @ best @ newline
       @ ''   - Promotional effectiveness: '' @ promo_judgement p1 p0
       @ '' impact on profits'' @ newline
       @ ''   '' @ newline
       @ ''5. Recommendations:'' @ newline
       @ ''   - Focus on '' @ best @ '' segment for immediate revenue'' @ newline
       @ ''   - '' @ promo_recommendation p1 p0
       @ '' promotional activities'' @ newline
       @ ''   '' @ newline
       @ ''Visualizations have been saved in the '' @ quote @ ''reports'' @ quote
       @ '' directory.'' @ newline))"

text \<open>
  \<^verbatim>\<open>generate_report\<close>, lines 109 to 148: the text is built first; the file is opened and
  written after that.
\<close>

definition generate_report ::
  "formats \<Rightarrow> optimizer \<Rightarrow> string list \<Rightarrow> (error + string) \<times> optimizer \<times> string list" where
  "generate_report f self files =
     (let (s, self') = ensure_summary self
      in case report_text f (data self') s of
           Inl e \<Rightarrow> (Inl e, self', files)
         | Inr report \<Rightarrow> (Inr report, self', files @ [''reports/analysis_report.txt'']))"

section \<open>The run\<close>

text \<open>
  \<^verbatim>\<open>load_real_data\<close>, lines 16 to 28. The outcome of the download and of parsing the CSV
  text and its dates is the environment's: either the exception raised there or the
  parsed frame, which then goes through \<^verbatim>\<open>clean_data\<close>.
\<close>

definition load_real_data :: "error + row list \<Rightarrow> error + optimizer" where
  "load_real_data fetched =
     (case fetched of
        Inl e \<Rightarrow> Inl e
      | Inr raw \<Rightarrow>
          (case clean_data raw of
             Inl e \<Rightarrow> Inl e
           | Inr d \<Rightarrow> Inr \<lparr>data = d, summary = None\<rparr>))"

text \<open>
  The \<^verbatim>\<open>__main__\<close> block, lines 150 to 156: construct, analyse, draw, report. The result
  is the list of files the run wrote and either the exception that ended it or the
  report text.
\<close>

definition main :: "formats \<Rightarrow> error + row list \<Rightarrow> string list \<times> (error + string)" where
  "main f fetched =
     (case load_real_data fetched of
        Inl e \<Rightarrow> ([], Inl e)
      | Inr optimizer0 \<Rightarrow>
          (let (s, optimizer1) = analyze_sales_trends optimizer0;
               (optimizer2, files2) = generate_visualizations optimizer1 [];
               (report, optimizer3, files3) = generate_report f optimizer2 files2
           in (files3, report)))"

section \<open>The tier assignment as the specification words it\<close>






section \<open>Sample inputs\<close>

text \<open>
  Three stores whose unit totals are 10, 50 and 90 (store 3 sells 40 and 50 in two weeks);
  the first row occurs twice. Both promotion flags occur.
\<close>

definition sample_rows :: "row list" where
  "sample_rows =
     [\<lparr>week = 20200106, store = 1, price = 2, base_price = 1, units = 10, featured = 0, date = 6\<rparr>,
      \<lparr>week = 20200106, store = 2, price = 3, base_price = 2, units = 50, featured = 1, date = 6\<rparr>,
      \<lparr>week = 20200106, store = 1, price = 2, base_price = 1, units = 10, featured = 0, date = 6\<rparr>,
      \<lparr>week = 20200113, store = 3, price = 5 / 2, base_price = 1, units = 40, featured = 0, date = 13\<rparr>,
      \<lparr>week = 20200106, store = 3, price = 2, base_price = 1, units = 50, featured = 1, date = 6\<rparr>]"

text \<open>What \<^verbatim>\<open>clean_data\<close> makes of them.\<close>

definition sample_cleaned :: "crow list" where
  "sample_cleaned =
     [\<lparr>week = 20200106, store = 1, price = 2, base_price = 1, units = 10, featured = 0, date = 6,
        revenue = 20, profit = 10, customer_segment = Some Low\<rparr>,
      \<lparr>week = 20200106, store = 2, price = 3, base_price = 2, units = 50, featured = 1, date = 6,
        revenue = 150, profit = 50, customer_segment = Some Medium\<rparr>,
      \<lparr>week = 20200113, store = 3, price = 5 / 2, base_price = 1, units = 40, featured = 0, date = 13,
        revenue = 100, profit = 60, customer_segment = Some High\<rparr>,
      \<lparr>week = 20200106, store = 3, price = 2, base_price = 1, units = 50, featured = 1, date = 6,
        revenue = 100, profit = 50, customer_segment = Some High\<rparr>]"

text \<open>The same stores without any promoted sale.\<close>

definition unpromoted_rows :: "row list" where
  "unpromoted_rows = map (\<lambda>r. r\<lparr>featured := 0\<rparr>) sample_rows"


text \<open>Renderings for the sample runs.\<close>

definition sample_formats :: formats where
  "sample_formats =
     \<lparr>today = ''2024-01-01'',
      money = (\<lambda>x. ''0.00''),
      grouped = (\<lambda>n. ''0''),
      fixed2 = (\<lambda>x. ''0.00''),
      segment_table = (\<lambda>rows. ''segments''),
      promo_table = (\<lambda>rows. ''promotions'')\<rparr>"


text \<open>
  Three stores whose units sum, mathematically, to \<open>2^63\<close>, 50 and 90. Store 1 has two
  records in one week, with \<open>2^63 - 1\<close> units and 1 unit.
\<close>

definition overflow_rows :: "row list" where
  "overflow_rows =
     [\<lparr>week = 20200106, store = 1, price = 2, base_price = 1,
        units = 9223372036854775807, featured = 0, date = 6\<rparr>,
      \<lparr>week = 20200106, store = 1, price = 3, base_price = 1, units = 1, featured = 1, date = 6\<rparr>,
      \<lparr>week = 20200106, store = 2, price = 3, base_price = 2, units = 50, featured = 1, date = 6\<rparr>,
      \<lparr>week = 20200113, store = 3, price = 2, base_price = 1, units = 90, featured = 0, date = 13\<rparr>]"

text \<open>What \<^verbatim>\<open>clean_data\<close> makes of them: the total of store 1 has wrapped around.\<close>

definition overflow_cleaned :: "crow list" where
  "overflow_cleaned =
     [\<lparr>week = 20200106, store = 1, price = 2, base_price = 1,
        units = 9223372036854775807, featured = 0, date = 6,
        revenue = 18446744073709551614, profit = 9223372036854775807,
        customer_segment = Some Low\<rparr>,
      \<lparr>week = 20200106, store = 1, price = 3, base_price = 1, units = 1, featured = 1, date = 6,
        revenue = 3, profit = 2, customer_segment = Some Low\<rparr>,
      \<lparr>week = 20200106, store = 2, price = 3, base_price = 2, units = 50, featured = 1, date = 6,
        revenue = 150, profit = 50, customer_segment = Some Low\<rparr>,
      \<lparr>week = 20200113, store = 3, price = 2, base_price = 1, units = 90, featured = 0, date = 13,
        revenue = 180, profit = 90, customer_segment = Some High\<rparr>]"

section \<open>Properties of deduplication\<close>

lemma set_drop_dups_from: "set (drop_dups_from seen xs) = set xs - set seen"
  by (induction xs arbitrary: seen) auto

lemma distinct_drop_dups_from: "distinct (drop_dups_from seen xs)"
  by (induction xs arbitrary: seen) (auto simp: set_drop_dups_from)

lemma drop_dups_from_id:
  "distinct xs \<Longrightarrow> set xs \<inter> set seen = {} \<Longrightarrow> drop_dups_from seen xs = xs"
  by (induction xs arbitrary: seen) auto

lemma set_drop_duplicates: "set (drop_duplicates xs) = set xs"
  by (simp add: drop_duplicates_def set_drop_dups_from)

lemma distinct_drop_duplicates: "distinct (drop_duplicates xs)"
  by (simp add: drop_duplicates_def distinct_drop_dups_from)

lemma drop_duplicates_id: "distinct xs \<Longrightarrow> drop_duplicates xs = xs"
  by (simp add: drop_duplicates_def drop_dups_from_id)

lemma drop_dups_from_index:
  "drop_dups_from seen xs =
     map (nth xs) (filter (\<lambda>i. xs ! i \<notin> set seen \<union> set (take i xs)) [0..<length xs])"
proof (induction xs arbitrary: seen)
  case Nil
  show ?case by simp
next
  case (Cons x xs)
  have shift: "[0..<length (x # xs)] = 0 # map Suc [0..<length xs]"
    by (simp add: upt_conv_Cons map_Suc_upt del: upt_Suc)
  have body: "drop_dups_from seen (x # xs) =
      (if x \<in> set seen then [] else [x]) @
      map (nth xs) (filter (\<lambda>i. xs ! i \<notin> set seen \<union> set (x # take i xs)) [0..<length xs])"
  proof (cases "x \<in> set seen")
    case True
    have "filter (\<lambda>i. xs ! i \<notin> set seen \<union> set (take i xs)) [0..<length xs] =
          filter (\<lambda>i. xs ! i \<notin> set seen \<union> set (x # take i xs)) [0..<length xs]"
      by (rule filter_cong) (use True in auto)
    with True show ?thesis
      by (simp only: drop_dups_from.simps Cons.IH if_True append_Nil)
  next
    case False
    have "filter (\<lambda>i. xs ! i \<notin> set (x # seen) \<union> set (take i xs)) [0..<length xs] =
          filter (\<lambda>i. xs ! i \<notin> set seen \<union> set (x # take i xs)) [0..<length xs]"
      by (rule filter_cong) auto
    with False show ?thesis
      by (simp only: drop_dups_from.simps Cons.IH if_False append_Cons append_Nil)
  qed
  show ?case
    unfolding body shift
    by (simp add: filter_map comp_def conj_ac)
qed

text \<open>
  Claim C3. Deduplication removes exactly the rows that are identical in every field to
  another row: the result has the same rows as the input, none of them twice, and it
  equals the input precisely when the input had no two identical rows. It is idempotent:
  deduplicating its own output removes nothing more.
\<close>

theorem dedup_exact_idempotent:
  "set (drop_duplicates xs) = set xs
   \<and> distinct (drop_duplicates xs)
   \<and> (drop_duplicates xs = xs \<longleftrightarrow> distinct xs)
   \<and> drop_duplicates (drop_duplicates xs) = drop_duplicates xs"
proof -
  have "drop_duplicates xs = xs \<longleftrightarrow> distinct xs"
    using distinct_drop_duplicates [of xs] drop_duplicates_id [of xs] by auto
  moreover have "drop_duplicates (drop_duplicates xs) = drop_duplicates xs"
    by (rule drop_duplicates_id) (rule distinct_drop_duplicates)
  ultimately show ?thesis
    by (simp add: set_drop_duplicates distinct_drop_duplicates)
qed

text \<open>
  Claim C10. Deduplication keeps the first occurrence of every row and keeps the
  retained rows in their original order: the result is the input restricted to the
  positions whose row does not occur at an earlier position.
\<close>

theorem dedup_keeps_first_in_order:
  "drop_duplicates xs =
     map (nth xs) (filter (\<lambda>i. xs ! i \<notin> set (take i xs)) [0..<length xs])"
  by (simp add: drop_duplicates_def drop_dups_from_index)

section \<open>Properties of \<^verbatim>\<open>groupby\<close>\<close>

lemma keys_add_to_group: "fst ` set (add_to_group k r gs) = insert k (fst ` set gs)"
  by (induction k r gs rule: add_to_group.induct) auto

lemma distinct_add_to_group:
  "distinct (map fst gs) \<Longrightarrow> distinct (map fst (add_to_group k r gs))"
  by (induction k r gs rule: add_to_group.induct) (auto simp: keys_add_to_group)

lemma map_of_add_to_group:
  "map_of (add_to_group k r gs) k' =
     (if k' = k then Some ((case map_of gs k of None \<Rightarrow> [] | Some g \<Rightarrow> g) @ [r])
      else map_of gs k')"
  by (induction k r gs rule: add_to_group.induct) auto

lemma distinct_collect_groups:
  "distinct (map fst gs) \<Longrightarrow> distinct (map fst (collect_groups key rs gs))"
  by (induction key rs gs rule: collect_groups.induct) (auto simp: distinct_add_to_group)

lemma map_of_collect_groups:
  "map_of (collect_groups key rs gs) k =
     (if filter (\<lambda>r. key r = k) rs = [] then map_of gs k
      else Some ((case map_of gs k of None \<Rightarrow> [] | Some g \<Rightarrow> g) @ filter (\<lambda>r. key r = k) rs))"
  by (induction key rs gs rule: collect_groups.induct) (auto simp: map_of_add_to_group)

lemma groupby_mem:
  "(k, g) \<in> set (groupby key rows) \<longleftrightarrow> g = filter (\<lambda>r. key r = k) rows \<and> g \<noteq> []"
proof -
  have d: "distinct (map fst (collect_groups key rows []))"
    by (rule distinct_collect_groups) simp
  have "(k, g) \<in> set (groupby key rows) \<longleftrightarrow> (k, g) \<in> set (collect_groups key rows [])"
    by (simp add: groupby_def)
  also have "\<dots> \<longleftrightarrow> map_of (collect_groups key rows []) k = Some g"
    using d by simp
  also have "\<dots> \<longleftrightarrow> g = filter (\<lambda>r. key r = k) rows \<and> g \<noteq> []"
    by (auto simp: map_of_collect_groups)
  finally show ?thesis .
qed

lemma groupby_keys: "fst ` set (groupby key rows) = key ` set rows"
proof -
  have "k \<in> fst ` set (groupby key rows) \<longleftrightarrow> k \<in> key ` set rows" for k
  proof -
    have "k \<in> fst ` set (groupby key rows) \<longleftrightarrow> (\<exists>g. (k, g) \<in> set (groupby key rows))"
      by force
    also have "\<dots> \<longleftrightarrow> filter (\<lambda>r. key r = k) rows \<noteq> []"
      by (simp add: groupby_mem)
    also have "\<dots> \<longleftrightarrow> k \<in> key ` set rows"
      by (auto simp: filter_empty_conv)
    finally show ?thesis .
  qed
  then show ?thesis by blast
qed

lemma groupby_sorted: "sorted (map fst (groupby key rows))"
  by (simp add: groupby_def)

lemma groupby_distinct: "distinct (map fst (groupby key rows))"
proof -
  have "distinct (map fst (collect_groups key rows []))"
    by (rule distinct_collect_groups) simp
  then show ?thesis
    by (simp add: groupby_def distinct_map)
qed

lemma groupby_key_list:
  "map fst (groupby key rows) = sorted_list_of_set (key ` set rows)"
proof -
  have "set (map fst (groupby key rows)) = key ` set rows"
    using groupby_keys [of key rows] by simp
  then show ?thesis
    using groupby_sorted [of key rows] groupby_distinct [of key rows]
    by (metis sorted_list_of_set.idem_if_sorted_distinct)
qed

lemma groupby_eq:
  "groupby key rows =
     map (\<lambda>k. (k, filter (\<lambda>r. key r = k) rows)) (sorted_list_of_set (key ` set rows))"
proof -
  have "groupby key rows = map (\<lambda>p. (fst p, filter (\<lambda>r. key r = fst p) rows)) (groupby key rows)"
    by (rule map_idI [symmetric]) (auto simp: groupby_mem)
  also have "\<dots> = map (\<lambda>k. (k, filter (\<lambda>r. key r = k) rows)) (map fst (groupby key rows))"
    by (simp add: comp_def)
  finally show ?thesis
    by (simp only: groupby_key_list)
qed

section \<open>64-bit sums and differences\<close>

lemma wrap64_id: "in_int64 x \<Longrightarrow> wrap64 x = x"
  by (simp add: in_int64_def wrap64_def)

lemma in_int64_wrap64: "in_int64 (wrap64 x)"
proof -
  have "0 \<le> (x + 9223372036854775808) mod 18446744073709551616"
    and "(x + 9223372036854775808) mod 18446744073709551616 < 18446744073709551616"
    by simp_all
  then show ?thesis
    unfolding in_int64_def wrap64_def by linarith
qed

lemma wrap64_add_left: "wrap64 (wrap64 a + b) = wrap64 (a + b)"
proof -
  have e1: "wrap64 a + b + 9223372036854775808
              = (a + 9223372036854775808) mod 18446744073709551616 + b"
    by (simp add: wrap64_def)
  have e2: "((a + 9223372036854775808) mod 18446744073709551616 + b) mod 18446744073709551616
              = (a + 9223372036854775808 + b) mod 18446744073709551616"
    by (rule mod_add_left_eq)
  have e3: "a + 9223372036854775808 + b = a + b + 9223372036854775808"
    by simp
  have "wrap64 (wrap64 a + b)
          = (wrap64 a + b + 9223372036854775808) mod 18446744073709551616 - 9223372036854775808"
    by (rule wrap64_def)
  also have "\<dots> = (a + b + 9223372036854775808) mod 18446744073709551616 - 9223372036854775808"
    by (simp only: e1 e2 e3)
  also have "\<dots> = wrap64 (a + b)"
    by (rule wrap64_def [symmetric])
  finally show ?thesis .
qed

lemma foldl_wrap64:
  "foldl (\<lambda>acc x. wrap64 (acc + x)) (wrap64 a) xs = wrap64 (a + sum_list xs)"
proof (induction xs arbitrary: a)
  case Nil
  show ?case by simp
next
  case (Cons x xs)
  have "foldl (\<lambda>acc x. wrap64 (acc + x)) (wrap64 a) (x # xs) =
        foldl (\<lambda>acc x. wrap64 (acc + x)) (wrap64 (a + x)) xs"
    by (simp add: wrap64_add_left)
  also have "\<dots> = wrap64 (a + x + sum_list xs)"
    by (rule Cons.IH)
  finally show ?case
    by (simp add: add.assoc)
qed

lemma sum64_wrap: "sum64 xs = wrap64 (sum_list xs)"
proof -
  have "wrap64 0 = 0"
    by (simp add: wrap64_def)
  then have "sum64 xs = foldl (\<lambda>acc x. wrap64 (acc + x)) (wrap64 0) xs"
    by (simp add: sum64_def)
  then show ?thesis
    by (simp only: foldl_wrap64) simp
qed

lemma sum64_exact: "in_int64 (sum_list xs) \<Longrightarrow> sum64 xs = sum_list xs"
  by (simp add: sum64_wrap wrap64_id)

lemma in_int64_sum64: "in_int64 (sum64 xs)"
  by (simp add: sum64_wrap in_int64_wrap64)



section \<open>The weekly aggregate\<close>

text \<open>
  Claim C5, as the script has it. The weekly aggregate has one row for each timestamp
  that occurs in the cleaned records, the rows come in ascending order of the timestamp,
  and each row holds the sum of revenue, the 64-bit sum of units and the sum of profit
  over the records of its timestamp. The 64-bit sum of units is their sum whenever that
  sum fits in a signed 64-bit integer.
\<close>

theorem weekly_sales_by_timestamp:
  "weekly_sales_of d =
     map (\<lambda>t. \<lparr>w_date = t,
                 w_revenue = sum_list (map revenue (filter (\<lambda>r. date r = t) d)),
                 w_units = sum64 (map units (filter (\<lambda>r. date r = t) d)),
                 w_profit = sum_list (map profit (filter (\<lambda>r. date r = t) d))\<rparr>)
       (sorted_list_of_set (date ` set d))
   \<and> map w_date (weekly_sales_of d) = sorted_list_of_set (date ` set d)
   \<and> sorted (map w_date (weekly_sales_of d))
   \<and> distinct (map w_date (weekly_sales_of d))
   \<and> set (map w_date (weekly_sales_of d)) = date ` set d
   \<and> length (weekly_sales_of d) = card (date ` set d)
   \<and> (\<forall>w\<in>set (weekly_sales_of d).
         in_int64 (sum_list (map units (filter (\<lambda>r. date r = w_date w) d))) \<longrightarrow>
         w_units w = sum_list (map units (filter (\<lambda>r. date r = w_date w) d)))"
proof -
  let ?ts = "sorted_list_of_set (date ` set d)"
  have rows: "weekly_sales_of d =
     map (\<lambda>t. \<lparr>w_date = t,
                 w_revenue = sum_list (map revenue (filter (\<lambda>r. date r = t) d)),
                 w_units = sum64 (map units (filter (\<lambda>r. date r = t) d)),
                 w_profit = sum_list (map profit (filter (\<lambda>r. date r = t) d))\<rparr>) ?ts"
    by (simp add: weekly_sales_of_def groupby_eq comp_def)
  have dates: "map w_date (weekly_sales_of d) = ?ts"
    unfolding rows by (simp add: comp_def)
  have "length (weekly_sales_of d) = length ?ts"
    unfolding rows by simp
  then have len: "length (weekly_sales_of d) = card (date ` set d)"
    by simp
  have exact: "w_units w = sum_list (map units (filter (\<lambda>r. date r = w_date w) d))"
    if "w \<in> set (weekly_sales_of d)"
      and "in_int64 (sum_list (map units (filter (\<lambda>r. date r = w_date w) d)))" for w
  proof -
    from that(1) have "w_units w = sum64 (map units (filter (\<lambda>r. date r = w_date w) d))"
      unfolding rows by auto
    with that(2) show ?thesis
      by (simp add: sum64_exact)
  qed
  show ?thesis
    using rows len exact unfolding dates by simp
qed

theorem weekly_sales_by_timestamp_witness:
  "weekly_sales_of sample_cleaned =
     [\<lparr>w_date = 6, w_revenue = 270, w_units = 110, w_profit = 110\<rparr>,
      \<lparr>w_date = 13, w_revenue = 100, w_units = 40, w_profit = 60\<rparr>]
   \<and> in_int64 (sum_list (map units (filter (\<lambda>r. date r = 6) sample_cleaned)))
   \<and> sum_list (map units (filter (\<lambda>r. date r = 6) sample_cleaned)) = 110
   \<and> length (weekly_sales_of sample_cleaned) = card (date ` set sample_cleaned)"
proof -
  let ?w = "\<lparr>w_date = 6, w_revenue = 270, w_units = 110, w_profit = 110\<rparr>"
  have rows: "weekly_sales_of sample_cleaned =
     [?w, \<lparr>w_date = 13, w_revenue = 100, w_units = 40, w_profit = 60\<rparr>]"
    by code_simp
  have fits: "in_int64 (sum_list (map units (filter (\<lambda>r. date r = 6) sample_cleaned)))"
    by code_simp
  have mem: "?w \<in> set (weekly_sales_of sample_cleaned)"
    unfolding rows by simp
  from weekly_sales_by_timestamp [of sample_cleaned]
  have "\<forall>w\<in>set (weekly_sales_of sample_cleaned).
         in_int64 (sum_list (map units (filter (\<lambda>r. date r = w_date w) sample_cleaned))) \<longrightarrow>
         w_units w = sum_list (map units (filter (\<lambda>r. date r = w_date w) sample_cleaned))"
    by (elim conjE)
  from bspec [OF this mem] fits
  have total: "sum_list (map units (filter (\<lambda>r. date r = 6) sample_cleaned)) = 110"
    by simp
  from weekly_sales_by_timestamp [of sample_cleaned]
  have "length (weekly_sales_of sample_cleaned) = card (date ` set sample_cleaned)"
    by blast
  with rows fits total show ?thesis
    by blast
qed

text \<open>
  The records of the overflowing sample: the three records of week 6 hold
  \<open>2^63 - 1\<close>, 1 and 50 units, \<open>2^63 + 50\<close> together, and the row of week 6 holds
  \<open>50 - 2^63\<close>.
\<close>

theorem weekly_units_wrap:
  "clean_data overflow_rows = Inr overflow_cleaned
   \<and> map date overflow_cleaned = [6, 6, 6, 13]
   \<and> map units overflow_cleaned = [9223372036854775807, 1, 50, 90]
   \<and> map w_date (weekly_sales_of overflow_cleaned) = [6, 13]
   \<and> map w_units (weekly_sales_of overflow_cleaned) = [- 9223372036854775758, 90]"
  by code_simp

section \<open>Derived metrics\<close>

lemma clean_data_rows:
  assumes "clean_data raw = Inr d"
  obtains dict where
    "qcut (customer_frequency (map add_metrics (drop_duplicates raw))) 3 [Low, Medium, High]
       = Inr dict"
    and "d = map (add_segment dict) (map add_metrics (drop_duplicates raw))"
  using assms by (auto simp: clean_data_def Let_def split: sum.splits)

lemma add_metrics_fields:
  "revenue (add_metrics r) = price r * of_int (units r)"
  "profit (add_metrics r) = price r * of_int (units r) - of_int (units r) * base_price r"
  "week (add_metrics r) = week r" "store (add_metrics r) = store r"
  "price (add_metrics r) = price r" "base_price (add_metrics r) = base_price r"
  "units (add_metrics r) = units r" "featured (add_metrics r) = featured r"
  "date (add_metrics r) = date r"
  by (simp_all add: add_metrics_def Let_def row.defs mrow.defs)

lemma add_segment_fields:
  "revenue (add_segment dict m) = revenue m" "profit (add_segment dict m) = profit m"
  "week (add_segment dict m) = week m" "store (add_segment dict m) = store m"
  "price (add_segment dict m) = price m" "base_price (add_segment dict m) = base_price m"
  "units (add_segment dict m) = units m" "featured (add_segment dict m) = featured m"
  "date (add_segment dict m) = date m"
  "customer_segment (add_segment dict m) =
     (case map_of dict (store m) of None \<Rightarrow> None | Some t \<Rightarrow> t)"
  by (simp_all add: add_segment_def mrow.defs crow.defs)

text \<open>
  Claim C2. On every cleaned record, revenue is unit price times units sold and profit
  is revenue minus reference price times units sold; so the revenue column sums to the
  sum of unit price times units sold.
\<close>

theorem derived_metrics:
  assumes "clean_data raw = Inr d"
  shows "list_all (\<lambda>r. revenue r = price r * of_int (units r)
                      \<and> profit r = revenue r - base_price r * of_int (units r)) d
         \<and> sum_list (map revenue d) = sum_list (map (\<lambda>r. price r * of_int (units r)) d)"
proof -
  from assms obtain dict where
    d: "d = map (add_segment dict) (map add_metrics (drop_duplicates raw))"
    by (rule clean_data_rows)
  have each: "list_all (\<lambda>r. revenue r = price r * of_int (units r)
                      \<and> profit r = revenue r - base_price r * of_int (units r)) d"
    unfolding d by (simp add: list_all_iff add_metrics_fields add_segment_fields mult.commute)
  then have "map revenue d = map (\<lambda>r. price r * of_int (units r)) d"
    by (simp add: list_all_iff)
  then have "sum_list (map revenue d) = sum_list (map (\<lambda>r. price r * of_int (units r)) d)"
    by (rule arg_cong)
  with each show ?thesis by (rule conjI)
qed

theorem derived_metrics_witness:
  "clean_data sample_rows = Inr sample_cleaned
   \<and> list_all (\<lambda>r. revenue r = price r * of_int (units r)
                   \<and> profit r = revenue r - base_price r * of_int (units r)) sample_cleaned
   \<and> sum_list (map revenue sample_cleaned) =
       sum_list (map (\<lambda>r. price r * of_int (units r)) sample_cleaned)
   \<and> sum_list (map revenue sample_cleaned) = 370"
proof -
  have run: "clean_data sample_rows = Inr sample_cleaned"
    by code_simp
  have total: "sum_list (map revenue sample_cleaned) = 370"
    by code_simp
  from derived_metrics [OF run] run total show ?thesis by simp
qed

section \<open>The Aggregator leaves the records alone\<close>




section \<open>The promotion judgement in the report\<close>





section \<open>Bin edges and labels\<close>

lemma bin_edges_3:
  "bin_edges vals 3 =
     [quantile (sort vals) 0 3, quantile (sort vals) 1 3,
      quantile (sort vals) 2 3, quantile (sort vals) 3 3]"
proof -
  have "[0..<Suc 3] = [0, 1, 2, 3]"
    by (simp add: upt_rec)
  then show ?thesis
    by (simp add: bin_edges_def)
qed

lemma quantile_first: "quantile s 0 q = of_int (s ! 0)"
  by (simp add: quantile_def lerp_def)

lemma quantile_last: "0 < q \<Longrightarrow> quantile s q q = of_int (s ! (length s - 1))"
  by (simp add: quantile_def lerp_def)

lemma sorted_between_ends:
  assumes "sorted s" and "v \<in> set s"
  shows "s ! 0 \<le> v \<and> v \<le> s ! (length s - 1)"
proof -
  from assms(2) obtain j where j: "j < length s" "s ! j = v"
    by (auto simp: in_set_conv_nth)
  from assms(1) j(1) have "s ! 0 \<le> s ! j"
    by (simp add: sorted_nth_mono)
  moreover from assms(1) j(1) have "s ! j \<le> s ! (length s - 1)"
    by (simp add: sorted_nth_mono)
  ultimately show ?thesis
    using j(2) by simp
qed

text \<open>The binary search over four edges, step by step: it looks at the third edge first.\<close>

lemma bisect_left_done: "bisect_left arr key lo lo = lo"
  by (subst bisect_left.simps) simp

lemma bisect_left_step:
  "lo < hi \<Longrightarrow>
   bisect_left arr key lo hi =
     (if arr ! (lo + (hi - lo) div 2) < key
      then bisect_left arr key (lo + (hi - lo) div 2 + 1) hi
      else bisect_left arr key lo (lo + (hi - lo) div 2))"
  by (subst bisect_left.simps) (simp add: Let_def)

lemma searchsorted_left_4:
  "searchsorted_left [b0, b1, b2, b3] key =
     (if b2 < key then (if b3 < key then 4 else 3)
      else if b1 < key then 2
      else if b0 < key then 1 else 0)"
proof -
  have upper: "bisect_left [b0, b1, b2, b3] key 3 4 = (if b3 < key then 4 else 3)"
    by (simp add: bisect_left_step bisect_left_done)
  have lowest: "bisect_left [b0, b1, b2, b3] key 0 1 = (if b0 < key then 1 else 0)"
    by (simp add: bisect_left_step bisect_left_done)
  have lower: "bisect_left [b0, b1, b2, b3] key 0 2 =
      (if b1 < key then 2 else if b0 < key then 1 else 0)"
    by (simp add: bisect_left_step [of 0 2] bisect_left_done lowest)
  have "bisect_left [b0, b1, b2, b3] key 0 4 =
      (if b2 < key then (if b3 < key then 4 else 3)
       else if b1 < key then 2
       else if b0 < key then 1 else 0)"
    by (simp add: bisect_left_step [of 0 4] upper lower)
  then show ?thesis
    by (simp add: searchsorted_left_def)
qed

text \<open>
  A value of the series always falls into one of the three bins, whatever the two inner
  edges are.
\<close>

lemma bin_label_cases:
  assumes "v \<in> set vals"
  shows "bin_label (bin_edges vals 3) [Low, Medium, High] v =
     Some (if of_int v = quantile (sort vals) 0 3 then Low
           else if quantile (sort vals) 2 3 < of_int v then High
           else if quantile (sort vals) 1 3 < of_int v then Medium
           else Low)"
proof -
  from assms have "v \<in> set (sort vals)"
    by simp
  then have "sort vals ! 0 \<le> v \<and> v \<le> sort vals ! (length (sort vals) - 1)"
    by (rule sorted_between_ends [OF sorted_sort])
  then have lo: "quantile (sort vals) 0 3 \<le> of_int v"
    and hi: "of_int v \<le> quantile (sort vals) 3 3"
    by (simp_all add: quantile_first quantile_last)
  show ?thesis
    using lo hi
    by (auto simp: bin_label_def bin_edges_3 searchsorted_left_4 Let_def)
qed

lemma bin_label_some:
  "v \<in> set vals \<Longrightarrow> bin_label (bin_edges vals 3) [Low, Medium, High] v \<noteq> None"
  by (simp add: bin_label_cases)

section \<open>What a successful cleaning guarantees\<close>

lemma qcut_Inr:
  assumes "qcut x 3 [Low, Medium, High] = Inr dict"
  shows "x \<noteq> []"
    and "distinct (bin_edges (map snd x) 3)"
    and "dict = map (\<lambda>(i, v). (i, bin_label (bin_edges (map snd x) 3) [Low, Medium, High] v)) x"
  using assms by (auto simp: qcut_def Let_def bin_edges_3 split: if_splits)

lemma customer_frequency_eq:
  "customer_frequency rows =
     map (\<lambda>s. (s, sum64 (map units (filter (\<lambda>r. store r = s) rows))))
       (sorted_list_of_set (store ` set rows))"
  by (simp add: customer_frequency_def groupby_eq comp_def)

lemma customer_frequency_keys: "fst ` set (customer_frequency rows) = store ` set rows"
  by (force simp: customer_frequency_eq)

lemma customer_frequency_lookup:
  "m \<in> set rows \<Longrightarrow>
   map_of (customer_frequency rows) (store m) =
     Some (sum64 (map units (filter (\<lambda>r. store r = store m) rows)))"
  by (rule map_of_is_SomeI) (auto simp: customer_frequency_eq comp_def)

lemma customer_frequency_Nil: "customer_frequency rows = [] \<longleftrightarrow> rows = []"
  by (auto simp: customer_frequency_eq)

lemma map_of_labels:
  "map_of (map (\<lambda>(i, v). (i, f v)) x) k = map_option f (map_of x k)"
  by (induction x) auto

lemma cleaned_segments:
  assumes "clean_data raw = Inr d"
  shows "d \<noteq> []" and "list_all (\<lambda>r. customer_segment r \<noteq> None) d"
proof -
  let ?data = "map add_metrics (drop_duplicates raw)"
  let ?cf = "customer_frequency ?data"
  from assms obtain dict where
    q: "qcut ?cf 3 [Low, Medium, High] = Inr dict"
    and d: "d = map (add_segment dict) ?data"
    by (rule clean_data_rows)
  from qcut_Inr(1) [OF q] have "?data \<noteq> []"
    by (simp add: customer_frequency_Nil)
  then show "d \<noteq> []"
    by (simp add: d)
  have "customer_segment (add_segment dict m) \<noteq> None" if m: "m \<in> set ?data" for m
  proof -
    let ?v = "sum64 (map units (filter (\<lambda>r. store r = store m) ?data))"
    have look: "map_of ?cf (store m) = Some ?v"
      using m by (rule customer_frequency_lookup)
    then have "(store m, ?v) \<in> set ?cf"
      by (rule map_of_SomeD)
    then have "?v \<in> set (map snd ?cf)"
      by force
    then have "bin_label (bin_edges (map snd ?cf) 3) [Low, Medium, High] ?v \<noteq> None"
      by (rule bin_label_some)
    then show ?thesis
      unfolding add_segment_fields qcut_Inr(3) [OF q] map_of_labels look
      by simp
  qed
  then show "list_all (\<lambda>r. customer_segment r \<noteq> None) d"
    by (simp add: d list_all_iff)
qed

lemma labelled_Nil: "labelled d = [] \<longleftrightarrow> list_all (\<lambda>r. customer_segment r = None) d"
  by (induction d) (auto simp: labelled_def split: option.splits)

lemma segment_analysis_of_Nil: "segment_analysis_of d = [] \<longleftrightarrow> labelled d = []"
  by (auto simp: segment_analysis_of_def groupby_eq)

text \<open>Every summary of cleaned data has a row in its segment table.\<close>

lemma cleaned_segment_table:
  assumes "clean_data raw = Inr d"
  shows "segment_analysis_of d \<noteq> []"
proof -
  from cleaned_segments [OF assms] obtain r where "r \<in> set d" "customer_segment r \<noteq> None"
    by (cases d) (auto simp: list_all_iff)
  then have "\<not> list_all (\<lambda>r. customer_segment r = None) d"
    by (auto simp: list_all_iff)
  then show ?thesis
    by (simp add: segment_analysis_of_Nil labelled_Nil)
qed

section \<open>The report needs both promotion groups\<close>

lemma promo_analysis_of_eq:
  "promo_analysis_of d =
     map (\<lambda>k. \<lparr>p_featured = k,
                 p_units = round2 (mean (map (\<lambda>r. of_int (units r)) (filter (\<lambda>r. featured r = k) d))),
                 p_revenue = round2 (mean (map revenue (filter (\<lambda>r. featured r = k) d))),
                 p_profit = round2 (mean (map profit (filter (\<lambda>r. featured r = k) d)))\<rparr>)
       (sorted_list_of_set (featured ` set d))"
  by (simp add: promo_analysis_of_def groupby_eq comp_def)

lemma loc_profit_missing:
  "k \<notin> featured ` set d \<Longrightarrow> loc_profit (promo_analysis_of d) k = Inl (KeyError k)"
  by (auto simp: loc_profit_def promo_analysis_of_eq find_None_iff split: option.splits)

lemma loc_profit_present:
  assumes "k \<in> featured ` set d"
  shows "loc_profit (promo_analysis_of d) k =
           Inr (round2 (mean (map profit (filter (\<lambda>r. featured r = k) d))))"
proof -
  have "\<exists>r. find (\<lambda>r. p_featured r = k) (promo_analysis_of d) = Some r"
    using assms by (cases "find (\<lambda>r. p_featured r = k) (promo_analysis_of d)")
      (auto simp: promo_analysis_of_eq find_None_iff)
  then obtain r where f: "find (\<lambda>r. p_featured r = k) (promo_analysis_of d) = Some r" ..
  then have "r \<in> set (promo_analysis_of d)" and "p_featured r = k"
    by (auto simp: find_Some_iff)
  then have "p_profit r = round2 (mean (map profit (filter (\<lambda>r. featured r = k) d)))"
    by (auto simp: promo_analysis_of_eq)
  with f show ?thesis
    by (simp add: loc_profit_def)
qed

lemma ensure_summary_fresh:
  assumes "summary self = None \<or> summary self = Some (fst (analyze_sales_trends self))"
  shows "ensure_summary self = analyze_sales_trends self"
proof -
  have "self\<lparr>summary := Some (fst (analyze_sales_trends self))\<rparr> = self"
    if "summary self = Some (fst (analyze_sales_trends self))"
    using that by simp
  with assms show ?thesis
    by (auto simp: ensure_summary_def analyze_sales_trends_def Let_def)
qed

text \<open>
  Claim C9. When the cleaned data hold only promoted records, or only non-promoted ones,
  \<^verbatim>\<open>generate_report\<close> ends with the \<^verbatim>\<open>KeyError\<close> of the missing group (group 0 when all
  records are promoted, group 1 otherwise) and the list of written files is what it was
  before the call: the report file is not written.
\<close>

theorem report_needs_both_flags:
  assumes "clean_data raw = Inr (data self)"
    and "summary self = None \<or> summary self = Some (fst (analyze_sales_trends self))"
    and "list_all (\<lambda>r. featured r = 1) (data self) \<or> list_all (\<lambda>r. featured r = 0) (data self)"
  shows "fst (generate_report f self files) =
           Inl (KeyError (if list_all (\<lambda>r. featured r = 1) (data self) then 0 else 1))
         \<and> snd (snd (generate_report f self files)) = files"
proof -
  let ?d = "data self"
  let ?s = "fst (analyze_sales_trends self)"
  let ?k = "if list_all (\<lambda>r. featured r = 1) ?d then 0 else 1 :: int"
  have ens: "ensure_summary self = (?s, self\<lparr>summary := Some ?s\<rparr>)"
    unfolding ensure_summary_fresh [OF assms(2)]
    by (simp add: analyze_sales_trends_def Let_def)
  have "segment_analysis_of ?d \<noteq> []"
    using assms(1) by (rule cleaned_segment_table)
  then have "segment_analysis ?s \<noteq> []"
    by (simp add: analyze_sales_trends_def Let_def)
  then have "\<exists>best. idxmax (segment_analysis ?s) = Inr best"
    by (cases "segment_analysis ?s") (simp_all add: idxmax_def)
  then obtain best where best: "idxmax (segment_analysis ?s) = Inr best" ..
  have promo: "promo_analysis ?s = promo_analysis_of ?d"
    by (simp add: analyze_sales_trends_def Let_def)
  from cleaned_segments(1) [OF assms(1)] obtain r0 where r0: "r0 \<in> set ?d"
    by (cases ?d) auto
  have "report_text f ?d ?s = Inl (KeyError ?k)"
  proof (cases "list_all (\<lambda>r. featured r = 1) ?d")
    case True
    with r0 have one: "1 \<in> featured ` set ?d"
      by (force simp: list_all_iff)
    from True have zero: "0 \<notin> featured ` set ?d"
      by (auto simp: list_all_iff)
    from True show ?thesis
      by (simp add: report_text_def best promo loc_profit_present [OF one]
          loc_profit_missing [OF zero])
  next
    case False
    with assms(3) have "list_all (\<lambda>r. featured r = 0) ?d"
      by simp
    then have one: "1 \<notin> featured ` set ?d"
      by (auto simp: list_all_iff)
    from False show ?thesis
      by (simp add: report_text_def best promo loc_profit_missing [OF one])
  qed
  then show ?thesis
    by (simp add: generate_report_def ens)
qed

theorem report_needs_both_flags_witness:
  "clean_data unpromoted_rows = Inr (data \<lparr>data = map (\<lambda>r. r\<lparr>featured := 0\<rparr>) sample_cleaned, summary = None\<rparr>)
   \<and> summary \<lparr>data = map (\<lambda>r. r\<lparr>featured := 0\<rparr>) sample_cleaned, summary = None\<rparr> = None
   \<and> list_all (\<lambda>r. featured r = 0) (map (\<lambda>r. r\<lparr>featured := 0\<rparr>) sample_cleaned)
   \<and> fst (generate_report sample_formats
            \<lparr>data = map (\<lambda>r. r\<lparr>featured := 0\<rparr>) sample_cleaned, summary = None\<rparr>
            [''reports/sales_trend.png'']) = Inl (KeyError 1)
   \<and> snd (snd (generate_report sample_formats
            \<lparr>data = map (\<lambda>r. r\<lparr>featured := 0\<rparr>) sample_cleaned, summary = None\<rparr>
            [''reports/sales_trend.png''])) = [''reports/sales_trend.png'']"
proof -
  let ?self = "\<lparr>data = map (\<lambda>r. r\<lparr>featured := 0\<rparr>) sample_cleaned, summary = None\<rparr>"
  have run: "clean_data unpromoted_rows = Inr (data ?self)"
    by code_simp
  have fresh: "summary ?self = None \<or> summary ?self = Some (fst (analyze_sales_trends ?self))"
    by simp
  have flags: "list_all (\<lambda>r. featured r = 1) (data ?self) \<or> list_all (\<lambda>r. featured r = 0) (data ?self)"
    by (simp add: list_all_iff)
  have none: "\<not> list_all (\<lambda>r. featured r = 1) (data ?self)"
    by code_simp
  from report_needs_both_flags [OF run fresh flags, of sample_formats "[''reports/sales_trend.png'']"]
    run none
  show ?thesis
    by (simp add: list_all_iff)
qed

section \<open>Which files a run writes\<close>

lemma main_after_load:
  assumes "load_real_data fetched = Inr self"
  shows "main f fetched =
     (case report_text f (data self) (fst (analyze_sales_trends self)) of
        Inl e \<Rightarrow> ([''reports/sales_trend.png'', ''reports/segment_analysis.png'',
                   ''reports/promo_effectiveness.png''], Inl e)
      | Inr report \<Rightarrow> ([''reports/sales_trend.png'', ''reports/segment_analysis.png'',
                        ''reports/promo_effectiveness.png'', ''reports/analysis_report.txt''],
                       Inr report))"
  using assms
  by (simp add: main_def analyze_sales_trends_def generate_visualizations_def
      generate_report_def ensure_summary_def Let_def split: sum.splits)

text \<open>
  Claim C7, as the script has it. A run ends in one of three ways. The download, the
  parsing or the tier computation fails: no file is written. They succeed and the report
  text cannot be built: the three charts are written, the report file is not. The report
  text is built: the three charts and then the report file are written. So the report
  file is written exactly when the run completes, and no file at all exactly when the
  run fails before the Aggregator.
\<close>

theorem files_written_by_run:
  "((\<exists>e. load_real_data fetched = Inl e \<and> main f fetched = ([], Inl e))
    \<or> (\<exists>self e. load_real_data fetched = Inr self
          \<and> report_text f (data self) (fst (analyze_sales_trends self)) = Inl e
          \<and> main f fetched =
              ([''reports/sales_trend.png'', ''reports/segment_analysis.png'',
                ''reports/promo_effectiveness.png''], Inl e))
    \<or> (\<exists>self report. load_real_data fetched = Inr self
          \<and> report_text f (data self) (fst (analyze_sales_trends self)) = Inr report
          \<and> main f fetched =
              ([''reports/sales_trend.png'', ''reports/segment_analysis.png'',
                ''reports/promo_effectiveness.png'', ''reports/analysis_report.txt''],
               Inr report)))
   \<and> (''reports/analysis_report.txt'' \<in> set (fst (main f fetched))
        \<longleftrightarrow> (\<exists>report. snd (main f fetched) = Inr report))
   \<and> (fst (main f fetched) = [] \<longleftrightarrow> (\<exists>e. load_real_data fetched = Inl e))"
proof (cases "load_real_data fetched")
  case (Inl e)
  then show ?thesis
    by (simp add: main_def)
next
  case (Inr self)
  show ?thesis
  proof (cases "report_text f (data self) (fst (analyze_sales_trends self))")
    case (Inl e)
    with Inr show ?thesis
      by (simp add: main_after_load [OF Inr])
  next
    case (Inr report)
    with \<open>load_real_data fetched = Inr self\<close> show ?thesis
      by (simp add: main_after_load [OF \<open>load_real_data fetched = Inr self\<close>])
  qed
qed

text \<open>
  The run on the stores without a promoted sale: cleaning and aggregation succeed, the
  three charts are written, and then the report fails on the missing group 1.
\<close>

theorem charts_without_report:
  "main sample_formats (Inr unpromoted_rows) =
     ([''reports/sales_trend.png'', ''reports/segment_analysis.png'',
       ''reports/promo_effectiveness.png''], Inl (KeyError 1))"
  by code_simp


theorem files_written_by_run_witness:
  "fst (main sample_formats (Inr sample_rows)) =
     [''reports/sales_trend.png'', ''reports/segment_analysis.png'',
      ''reports/promo_effectiveness.png'', ''reports/analysis_report.txt'']
   \<and> (\<exists>report. snd (main sample_formats (Inr sample_rows)) = Inr report)
   \<and> main sample_formats (Inl FetchError) = ([], Inl FetchError)"
proof -
  have files: "fst (main sample_formats (Inr sample_rows)) =
     [''reports/sales_trend.png'', ''reports/segment_analysis.png'',
      ''reports/promo_effectiveness.png'', ''reports/analysis_report.txt'']"
    by code_simp
  have "load_real_data (Inl FetchError) = Inl FetchError"
    by (simp add: load_real_data_def)
  with files files_written_by_run [of "Inr sample_rows" sample_formats]
    files_written_by_run [of "Inl FetchError" sample_formats]
  show ?thesis
    by auto
qed

section \<open>Percentile boundaries of a sorted list\<close>









section \<open>Three bins over pairwise different totals\<close>











section \<open>Tier assignment\<close>







section \<open>When the tier computation fails\<close>









end
